theory Spec2Isabelle
  imports Complex_Main "HOL-Library.AList" "HOL-Library.Char_ord" "HOL-Library.List_Lexorder"
begin

section \<open>Python values\<close>

text \<open>
  The responses, query parameters and cache entries of the data-access layer are plain
  Python values: \<open>None\<close>, booleans, numbers, strings, lists, tuples and dicts with string
  keys.  A dict is an association list in insertion order; \<open>time.time()\<close> is a real
  number of seconds.
\<close>

datatype pyval =
    PNone
  | PBool bool
  | PInt int
  | PFloat real
  | PStr string
  | PList "pyval list"
  | PTuple "pyval list"
  | PDict "(string \<times> pyval) list"

text \<open>Python truthiness, as used by \<open>if data\<close> and \<open>not response.get('error')\<close>.\<close>

fun truthy :: "pyval \<Rightarrow> bool" where
  "truthy PNone = False"
| "truthy (PBool b) = b"
| "truthy (PInt i) = (i \<noteq> 0)"
| "truthy (PFloat r) = (r \<noteq> 0)"
| "truthy (PStr s) = (s \<noteq> [])"
| "truthy (PList xs) = (xs \<noteq> [])"
| "truthy (PTuple xs) = (xs \<noteq> [])"
| "truthy (PDict kvs) = (kvs \<noteq> [])"

fun is_list :: "pyval \<Rightarrow> bool" where
  "is_list (PList xs) = True"
| "is_list v = False"

fun is_dict :: "pyval \<Rightarrow> bool" where
  "is_dict (PDict kvs) = True"
| "is_dict v = False"

text \<open>\<open>len(x)\<close> for the sized values.\<close>

fun py_len :: "pyval \<Rightarrow> int" where
  "py_len (PList xs) = int (length xs)"
| "py_len (PTuple xs) = int (length xs)"
| "py_len (PStr s) = int (length s)"
| "py_len (PDict kvs) = int (length kvs)"
| "py_len v = 0"

text \<open>\<open>d.get(k)\<close> on a value known to be a dict: \<open>None\<close> for a missing key.\<close>

fun dict_get :: "pyval \<Rightarrow> string \<Rightarrow> pyval" where
  "dict_get (PDict kvs) k = (case map_of kvs k of None \<Rightarrow> PNone | Some v \<Rightarrow> v)"
| "dict_get v k = PNone"

section \<open>FallbackResponse (supabase\_connection\_pool.py)\<close>

record fallback_response =
  fr_data :: pyval
  fr_count :: int
  fr_fallback :: bool

text \<open>
  \<^verbatim>\<open>self.data = data if isinstance(data, list) else [data] if data else []\<close>
  \<^verbatim>\<open>self.count = len(self.data) if isinstance(self.data, list) else 1\<close>
  \<^verbatim>\<open>self._fallback = True\<close>
\<close>

definition FallbackResponse :: "pyval \<Rightarrow> fallback_response" where
  "FallbackResponse d =
     (let self_data = (if is_list d then d else if truthy d then PList [d] else PList [])
      in \<lparr> fr_data = self_data,
           fr_count = (if is_list self_data then py_len self_data else 1),
           fr_fallback = True \<rparr>)"

section \<open>ConnectionTracker (async\_supabase.py)\<close>

record connection_tracker =
  failed_connections :: int
  last_failure :: "real option"
  max_retries :: int
  base_delay :: real
  failure_threshold :: int
  throttle_duration :: real
  retry_counts :: "(string \<times> int) list"
  operation_timeouts :: "(string \<times> real) list"

text \<open>
  \<open>__init__\<close>: the two settings \<open>database_max_retries\<close> and \<open>database_retry_delay\<close>
  are parameters.
\<close>

definition init_tracker :: "int \<Rightarrow> real \<Rightarrow> connection_tracker" where
  "init_tracker database_max_retries database_retry_delay =
     \<lparr> failed_connections = 0, last_failure = None,
       max_retries = database_max_retries, base_delay = database_retry_delay,
       failure_threshold = 5, throttle_duration = 30,
       retry_counts = [], operation_timeouts = [] \<rparr>"

text \<open>\<open>self.retry_counts.get(operation_id, 0)\<close>\<close>

definition retry_count_of :: "connection_tracker \<Rightarrow> string \<Rightarrow> int" where
  "retry_count_of s operation_id =
     (case map_of (retry_counts s) operation_id of None \<Rightarrow> 0 | Some c \<Rightarrow> c)"

text \<open>
  \<open>record_failure(operation_id=None)\<close> at time \<open>now\<close>; \<open>if operation_id\<close> is false for
  \<open>None\<close> and for the empty string.
\<close>

definition record_failure :: "real \<Rightarrow> string option \<Rightarrow> connection_tracker \<Rightarrow> connection_tracker" where
  "record_failure now operation_id s =
     (let s1 = s\<lparr> failed_connections := failed_connections s + 1, last_failure := Some now \<rparr>
      in case operation_id of
           None \<Rightarrow> s1
         | Some op_id \<Rightarrow>
             if op_id = [] then s1
             else s1\<lparr> retry_counts :=
                        AList.update op_id (retry_count_of s op_id + 1) (retry_counts s) \<rparr>)"

definition record_success :: "string option \<Rightarrow> connection_tracker \<Rightarrow> connection_tracker" where
  "record_success operation_id s =
     (let s1 = s\<lparr> failed_connections := max 0 (failed_connections s - 1) \<rparr>
      in case operation_id of
           None \<Rightarrow> s1
         | Some op_id \<Rightarrow>
             if op_id \<noteq> [] \<and> map_of (retry_counts s) op_id \<noteq> None
             then s1\<lparr> retry_counts := AList.delete op_id (retry_counts s) \<rparr>
             else s1)"

definition should_throttle :: "real \<Rightarrow> connection_tracker \<Rightarrow> bool" where
  "should_throttle now s =
     (case last_failure s of
        None \<Rightarrow> False
      | Some lf \<Rightarrow>
          if failed_connections s > failure_threshold s \<and> lf \<noteq> 0
          then now - lf < throttle_duration s
          else False)"

text \<open>
  \<open>should_retry(operation_id, error_type=None)\<close>; \<open>if error_type and error_type in [...]\<close>
  is false for \<open>None\<close> and for the empty string.
\<close>

definition should_retry :: "connection_tracker \<Rightarrow> string \<Rightarrow> string option \<Rightarrow> bool" where
  "should_retry s operation_id error_type =
     (let retry_count = retry_count_of s operation_id
      in if retry_count \<ge> max_retries s then False
         else if (case error_type of
                    None \<Rightarrow> False
                  | Some e \<Rightarrow> e \<noteq> [] \<and> e \<in> set [''connection'', ''timeout'', ''pool_exhausted''])
         then True
         else retry_count < max_retries s)"

text \<open>\<open>min(self.base_delay * (2 ** retry_count), 30.0)\<close>\<close>

definition get_retry_delay :: "connection_tracker \<Rightarrow> string \<Rightarrow> real" where
  "get_retry_delay s operation_id =
     min (base_delay s * (2 powr real_of_int (retry_count_of s operation_id))) 30"

text \<open>
  \<open>cleanup_old_operations\<close> at time \<open>current_time\<close>: the operations whose entry in
  \<open>operation_timeouts\<close> is more than 300 seconds old are popped from both maps.
\<close>

definition old_operations :: "real \<Rightarrow> connection_tracker \<Rightarrow> string list" where
  "old_operations current_time s =
     map fst (filter (\<lambda>(op_id, timestamp). current_time - timestamp > 300)
                (operation_timeouts s))"

definition cleanup_old_operations :: "real \<Rightarrow> connection_tracker \<Rightarrow> connection_tracker" where
  "cleanup_old_operations current_time s =
     fold (\<lambda>op_id t. t\<lparr> retry_counts := AList.delete op_id (retry_counts t),
                         operation_timeouts := AList.delete op_id (operation_timeouts t) \<rparr>)
          (old_operations current_time s) s"

section \<open>CircuitBreakerFallback (circuit\_breaker\_fallback.py)\<close>

text \<open>
  A cache entry is the dict \<^verbatim>\<open>{'data': response, 'timestamp': time.time()}\<close>.  Only dicts
  are ever stored as \<open>data\<close> (\<open>cache_response\<close> checks \<open>isinstance(response, dict)\<close>), so
  the entry holds the dict's items.
\<close>

record cached_item =
  ci_data :: "(string \<times> pyval) list"
  ci_timestamp :: real

record fallback_service =
  cache :: "(string \<times> cached_item) list"
  cache_ttl :: real

definition init_fallback_service :: fallback_service where
  "init_fallback_service = \<lparr> cache = [], cache_ttl = 300 \<rparr>"

text \<open>
  \<open>get_cached_response(cache_key)\<close> at time \<open>now\<close>.  The two assignments write into the
  cached dict itself, so the entry kept in the cache carries the markers afterwards.
\<close>

definition annotate_item :: "cached_item \<Rightarrow> (string \<times> pyval) list" where
  "annotate_item cached_item =
     AList.update ''_cached_at'' (PFloat (ci_timestamp cached_item))
       (AList.update ''_fallback_cached'' (PBool True) (ci_data cached_item))"

definition get_cached_response ::
  "real \<Rightarrow> string \<Rightarrow> fallback_service \<Rightarrow> (string \<times> pyval) list option \<times> fallback_service" where
  "get_cached_response now cache_key s =
     (case map_of (cache s) cache_key of
        None \<Rightarrow> (None, s)
      | Some cached_item \<Rightarrow>
          if now - ci_timestamp cached_item < cache_ttl s
          then (Some (annotate_item cached_item),
                s\<lparr> cache := AList.update cache_key
                               (cached_item\<lparr> ci_data := annotate_item cached_item \<rparr>) (cache s) \<rparr>)
          else (None, s\<lparr> cache := AList.delete cache_key (cache s) \<rparr>))"

text \<open>\<open>cache_response(cache_key, response)\<close> at time \<open>now\<close>.\<close>

definition cache_response :: "real \<Rightarrow> string \<Rightarrow> pyval \<Rightarrow> fallback_service \<Rightarrow> fallback_service" where
  "cache_response now cache_key response s =
     (case response of
        PDict items \<Rightarrow>
          if \<not> truthy (dict_get response ''error'')
          then s\<lparr> cache := AList.update cache_key
                              \<lparr> ci_data = items, ci_timestamp = now \<rparr> (cache s) \<rparr>
          else s
      | _ \<Rightarrow> s)"

text \<open>
  \<open>_generate_cache_key\<close>: \<open>param_hash\<close> stands for
  \<^verbatim>\<open>str(hash(json.dumps(params, sort_keys=True)))\<close>, whose value Python fixes per process only.
\<close>

definition generate_cache_key :: "(pyval \<Rightarrow> string) \<Rightarrow> string \<Rightarrow> pyval \<Rightarrow> string" where
  "generate_cache_key param_hash operation_type params =
     (if truthy params then operation_type @ '':'' @ param_hash params else operation_type)"

text \<open>\<open>str.lower()\<close> on ASCII text.\<close>

definition lower_char :: "char \<Rightarrow> char" where
  "lower_char c =
     (if 65 \<le> (of_char c :: nat) \<and> (of_char c :: nat) \<le> 90
      then char_of ((of_char c :: nat) + 32) else c)"

definition lower :: "string \<Rightarrow> string" where
  "lower s = map lower_char s"

definition get_reservations_fallback :: "real \<Rightarrow> (string \<times> pyval) list" where
  "get_reservations_fallback now =
     [(''data'', PList []), (''count'', PInt 0), (''error'', PNone), (''fallback'', PBool True),
      (''fallback_type'', PStr ''reservations''),
      (''message'', PStr ''Reservations data temporarily unavailable. Showing cached data or empty results.''),
      (''retry_after'', PInt 60), (''timestamp'', PFloat now)]"

definition get_properties_fallback :: "real \<Rightarrow> (string \<times> pyval) list" where
  "get_properties_fallback now =
     [(''data'', PList []), (''count'', PInt 0), (''error'', PNone), (''fallback'', PBool True),
      (''fallback_type'', PStr ''properties''),
      (''message'', PStr ''Properties data temporarily unavailable. Showing cached data or empty results.''),
      (''retry_after'', PInt 60), (''timestamp'', PFloat now)]"

definition get_users_fallback :: "real \<Rightarrow> (string \<times> pyval) list" where
  "get_users_fallback now =
     [(''data'', PList []), (''count'', PInt 0), (''error'', PNone), (''fallback'', PBool True),
      (''fallback_type'', PStr ''users''),
      (''message'', PStr ''User data temporarily unavailable. Please try again in a moment.''),
      (''retry_after'', PInt 30), (''timestamp'', PFloat now)]"

definition get_health_fallback :: "real \<Rightarrow> (string \<times> pyval) list" where
  "get_health_fallback now =
     [(''status'', PStr ''degraded''), (''fallback'', PBool True),
      (''message'', PStr ''Database connections are experiencing issues. Running in degraded mode.''),
      (''retry_after'', PInt 30), (''timestamp'', PFloat now),
      (''details'', PDict [(''database'', PStr ''degraded''), (''circuit_breaker'', PStr ''open''),
                           (''fallback_active'', PBool True)])]"

definition get_default_fallback :: "real \<Rightarrow> string \<Rightarrow> pyval \<Rightarrow> (string \<times> pyval) list" where
  "get_default_fallback now operation_type params =
     [(''error'', PStr (''Service temporarily unavailable for '' @ operation_type)),
      (''fallback'', PBool True), (''fallback_type'', PStr ''default''),
      (''message'', PStr ''The requested service is temporarily unavailable due to database issues.''),
      (''retry_after'', PInt 60), (''timestamp'', PFloat now),
      (''operation_type'', PStr operation_type), (''params'', params)]"

text \<open>
  \<open>get_fallback_response(operation_type, params)\<close>: the cached response when there is
  one (\<open>if cached_response\<close> is the truthiness of the returned dict), else the default
  for the operation type.
\<close>

definition synthesize_fallback :: "real \<Rightarrow> string \<Rightarrow> pyval \<Rightarrow> (string \<times> pyval) list" where
  "synthesize_fallback now operation_type params =
     (if lower operation_type \<in> set [''reservation'', ''reservations'']
      then get_reservations_fallback now
      else if lower operation_type \<in> set [''property'', ''properties'']
      then get_properties_fallback now
      else if lower operation_type \<in> set [''user'', ''users'']
      then get_users_fallback now
      else if lower operation_type \<in> set [''health'', ''status'']
      then get_health_fallback now
      else get_default_fallback now operation_type params)"

definition get_fallback_response ::
  "(pyval \<Rightarrow> string) \<Rightarrow> real \<Rightarrow> string \<Rightarrow> pyval \<Rightarrow> fallback_service
     \<Rightarrow> (string \<times> pyval) list \<times> fallback_service" where
  "get_fallback_response param_hash now operation_type params s =
     (let cache_key = generate_cache_key param_hash operation_type params;
          (cached_response, s1) = get_cached_response now cache_key s
      in case cached_response of
           None \<Rightarrow> (synthesize_fallback now operation_type params, s1)
         | Some d \<Rightarrow>
             if d \<noteq> [] then (d, s1)
             else (synthesize_fallback now operation_type params, s1))"

definition clear_cache :: "fallback_service \<Rightarrow> fallback_service" where
  "clear_cache s = s\<lparr> cache := [] \<rparr>"

text \<open>\<open>cleanup_expired_cache\<close> at time \<open>current_time\<close>.\<close>

definition expired_keys :: "real \<Rightarrow> fallback_service \<Rightarrow> string list" where
  "expired_keys current_time s =
     map fst (filter (\<lambda>(key, item). current_time - ci_timestamp item \<ge> cache_ttl s) (cache s))"

definition cleanup_expired_cache :: "real \<Rightarrow> fallback_service \<Rightarrow> fallback_service" where
  "cleanup_expired_cache current_time s =
     fold (\<lambda>key t. t\<lparr> cache := AList.delete key (cache t) \<rparr>) (expired_keys current_time s) s"

section \<open>The degraded client (supabase\_connection\_pool.py)\<close>

text \<open>
  \<open>GracefulDegradationTable\<close>: the table name and the \<open>query_params\<close> dict built by the
  chained calls.  The fallback service is the process-wide instance and is passed as state.
\<close>

record degradation_table =
  table_name :: string
  query_params :: "(string \<times> pyval) list"

text \<open>\<open>GracefulDegradationClient.table(table_name)\<close>\<close>

definition table :: "string \<Rightarrow> degradation_table" where
  "table name = \<lparr> table_name = name, query_params = [] \<rparr>"

definition tbl_select :: "pyval list \<Rightarrow> degradation_table \<Rightarrow> degradation_table" where
  "tbl_select columns t =
     t\<lparr> query_params := AList.update ''select'' (PTuple columns) (query_params t) \<rparr>"

definition tbl_insert :: "pyval \<Rightarrow> degradation_table \<Rightarrow> degradation_table" where
  "tbl_insert d t = t\<lparr> query_params := AList.update ''insert'' d (query_params t) \<rparr>"

definition tbl_update :: "pyval \<Rightarrow> degradation_table \<Rightarrow> degradation_table" where
  "tbl_update d t = t\<lparr> query_params := AList.update ''update'' d (query_params t) \<rparr>"

definition tbl_delete :: "degradation_table \<Rightarrow> degradation_table" where
  "tbl_delete t = t\<lparr> query_params := AList.update ''delete'' (PBool True) (query_params t) \<rparr>"

text \<open>
  \<open>eq(column, value)\<close> appends to the \<open>filters\<close> list, created on first use; no other
  method writes that key, so it always holds a list.
\<close>

definition tbl_eq :: "string \<Rightarrow> pyval \<Rightarrow> degradation_table \<Rightarrow> degradation_table" where
  "tbl_eq column v t =
     (let filters = (case map_of (query_params t) ''filters'' of
                       Some (PList fs) \<Rightarrow> fs
                     | _ \<Rightarrow> [])
      in t\<lparr> query_params :=
             AList.update ''filters'' (PList (filters @ [PTuple [PStr ''eq'', PStr column, v]]))
               (query_params t) \<rparr>)"

definition tbl_limit :: "pyval \<Rightarrow> degradation_table \<Rightarrow> degradation_table" where
  "tbl_limit n t = t\<lparr> query_params := AList.update ''limit'' n (query_params t) \<rparr>"

definition tbl_order :: "string \<Rightarrow> bool \<Rightarrow> degradation_table \<Rightarrow> degradation_table" where
  "tbl_order column desc t =
     t\<lparr> query_params := AList.update ''order'' (PTuple [PStr column, PBool desc]) (query_params t) \<rparr>"

text \<open>The response of a degraded write.\<close>

definition write_unavailable :: "(string \<times> pyval) list" where
  "write_unavailable =
     [(''error'', PStr ''Write operations temporarily unavailable''),
      (''fallback'', PBool True),
      (''message'', PStr ''Database is in degraded mode. Write operations are disabled.''),
      (''retry_after'', PInt 60)]"

text \<open>
  \<open>GracefulDegradationTable.execute()\<close>:
  \<^verbatim>\<open>any(key in self.query_params for key in ['insert', 'update', 'delete'])\<close>
\<close>

definition is_write :: "(string \<times> pyval) list \<Rightarrow> bool" where
  "is_write qp = list_ex (\<lambda>key. map_of qp key \<noteq> None) [''insert'', ''update'', ''delete'']"

definition tbl_execute ::
  "(pyval \<Rightarrow> string) \<Rightarrow> real \<Rightarrow> degradation_table \<Rightarrow> fallback_service
     \<Rightarrow> fallback_response \<times> fallback_service" where
  "tbl_execute param_hash now t s =
     (if is_write (query_params t)
      then (FallbackResponse (PDict write_unavailable), s)
      else (let (r, s1) = get_fallback_response param_hash now (table_name t)
                            (PDict (query_params t)) s
            in (FallbackResponse (PDict r), s1)))"

text \<open>\<open>GracefulDegradationRPC.execute()\<close>; \<open>rpc\<close> passes \<open>params or {}\<close>.\<close>

definition rpc_execute ::
  "(pyval \<Rightarrow> string) \<Rightarrow> real \<Rightarrow> string \<Rightarrow> pyval \<Rightarrow> fallback_service
     \<Rightarrow> fallback_response \<times> fallback_service" where
  "rpc_execute param_hash now function_name params s =
     (let (r, s1) = get_fallback_response param_hash now (''rpc_'' @ function_name)
                      (if truthy params then params else PDict []) s
      in (FallbackResponse (PDict r), s1))"

text \<open>The chained calls a caller can make on a degraded table before \<open>execute\<close>.\<close>

datatype table_call =
    Select "pyval list"
  | Insert pyval
  | Update pyval
  | Delete
  | Eq string pyval
  | Limit pyval
  | Order string bool

fun apply_call :: "degradation_table \<Rightarrow> table_call \<Rightarrow> degradation_table" where
  "apply_call t (Select columns) = tbl_select columns t"
| "apply_call t (Insert d) = tbl_insert d t"
| "apply_call t (Update d) = tbl_update d t"
| "apply_call t Delete = tbl_delete t"
| "apply_call t (Eq column v) = tbl_eq column v t"
| "apply_call t (Limit n) = tbl_limit n t"
| "apply_call t (Order column desc) = tbl_order column desc t"

fun is_write_call :: "table_call \<Rightarrow> bool" where
  "is_write_call (Insert d) = True"
| "is_write_call (Update d) = True"
| "is_write_call Delete = True"
| "is_write_call c = False"

section \<open>Operations on the fallback service\<close>

text \<open>
  The calls that reach the process-wide fallback service, each with the time at which it
  runs, and the state they leave.
\<close>

datatype fb_op =
    CacheResponse real string pyval
  | GetCachedResponse real string
  | GetFallbackResponse real string pyval
  | ClearCache
  | CleanupExpiredCache real

fun apply_fb_op :: "(pyval \<Rightarrow> string) \<Rightarrow> fb_op \<Rightarrow> fallback_service \<Rightarrow> fallback_service" where
  "apply_fb_op h (CacheResponse now k r) s = cache_response now k r s"
| "apply_fb_op h (GetCachedResponse now k) s = snd (get_cached_response now k s)"
| "apply_fb_op h (GetFallbackResponse now ty params) s =
     snd (get_fallback_response h now ty params s)"
| "apply_fb_op h ClearCache s = clear_cache s"
| "apply_fb_op h (CleanupExpiredCache now) s = cleanup_expired_cache now s"

text \<open>No cached entry holds a response with a truthy \<open>error\<close> field.\<close>

definition error_free :: "fallback_service \<Rightarrow> bool" where
  "error_free s =
     list_all (\<lambda>entry. \<not> truthy (dict_get (PDict (ci_data (snd entry))) ''error'')) (cache s)"

section \<open>Calls on the connection tracker\<close>

text \<open>
  The state-changing methods of \<open>ConnectionTracker\<close>, each with the time at which it runs.
\<close>

datatype tracker_op =
    RecordFailure real "string option"
  | RecordSuccess "string option"
  | CleanupOldOperations real

fun apply_tracker_op :: "tracker_op \<Rightarrow> connection_tracker \<Rightarrow> connection_tracker" where
  "apply_tracker_op (RecordFailure now operation_id) s = record_failure now operation_id s"
| "apply_tracker_op (RecordSuccess operation_id) s = record_success operation_id s"
| "apply_tracker_op (CleanupOldOperations now) s = cleanup_old_operations now s"

section \<open>Error classification (AsyncTable.execute, async\_supabase.py)\<close>



section \<open>SupabaseConnectionPool (supabase\_connection\_pool.py)\<close>

text \<open>\<open>str(n)\<close> for an integer, as the f-string of the exhaustion message formats it.\<close>

definition digit_char :: "nat \<Rightarrow> char" where
  "digit_char d = char_of (48 + d)"

fun str_nat :: "nat \<Rightarrow> string" where
  "str_nat n = (if n < 10 then [digit_char n] else str_nat (n div 10) @ [digit_char (n mod 10)])"

declare str_nat.simps [simp del]

definition str_int :: "int \<Rightarrow> string" where
  "str_int i = (if i < 0 then CHR ''-'' # str_nat (nat (- i)) else str_nat (nat i))"

record connection_metrics =
  total_connections :: int
  active_connections :: int
  failed_connections_metric :: int
  successful_operations :: int
  failed_operations :: int
  average_response_time :: real
  last_health_check :: real

text \<open>
  A client handle is a number; \<open>next_client\<close> is the handle \<open>_create_client\<close> returns next.
  \<open>pool\<close> is the \<open>asyncio.Queue(maxsize=max_connections)\<close> of idle clients.
\<close>

type_synonym client = nat

record connection_pool =
  max_connections :: int
  timeout :: real
  recycle_interval :: real
  pool :: "client list"
  clients :: "client list"
  client_created_times :: "(client \<times> real) list"
  active_clients :: "client set"
  metrics :: connection_metrics
  failed_operations_count :: int
  circuit_breaker_open :: bool
  circuit_breaker_opened_at :: "real option"
  circuit_breaker_threshold :: int
  circuit_breaker_timeout :: real
  initialized :: bool
  next_client :: client

text \<open>
  \<open>__init__\<close> at time \<open>now\<close>; the three settings are parameters.
\<close>

definition init_pool :: "real \<Rightarrow> int \<Rightarrow> real \<Rightarrow> real \<Rightarrow> connection_pool" where
  "init_pool now supabase_max_concurrent_connections supabase_connection_timeout
       supabase_pool_recycle_interval =
     \<lparr> max_connections = supabase_max_concurrent_connections,
       timeout = supabase_connection_timeout,
       recycle_interval = supabase_pool_recycle_interval,
       pool = [], clients = [], client_created_times = [], active_clients = {},
       metrics = \<lparr> total_connections = 0, active_connections = 0,
                   failed_connections_metric = 0, successful_operations = 0,
                   failed_operations = 0, average_response_time = 0,
                   last_health_check = now \<rparr>,
       failed_operations_count = 0,
       circuit_breaker_open = False,
       circuit_breaker_opened_at = None,
       circuit_breaker_threshold = 10,
       circuit_breaker_timeout = 60,
       initialized = False,
       next_client = 0 \<rparr>"

text \<open>
  \<open>await self._pool.put(x)\<close>: a queue with \<open>maxsize > 0\<close> that already holds \<open>maxsize\<close>
  items suspends the caller until a slot is free; \<open>None\<close> is that suspension.
\<close>

definition queue_put :: "int \<Rightarrow> client \<Rightarrow> client list \<Rightarrow> client list option" where
  "queue_put maxsize x q =
     (if 0 < maxsize \<and> maxsize \<le> int (length q) then None else Some (q @ [x]))"

text \<open>
  \<open>initialize()\<close> at time \<open>now\<close>: \<open>min(10, max_connections)\<close> fresh clients, each appended to
  \<open>_clients\<close>, stamped and put into the queue.
\<close>

fun create_initial :: "nat \<Rightarrow> real \<Rightarrow> connection_pool \<Rightarrow> connection_pool option" where
  "create_initial 0 now s = Some s"
| "create_initial (Suc n) now s =
     (let client = next_client s
      in case queue_put (max_connections s) client (pool s) of
           None \<Rightarrow> None
         | Some q \<Rightarrow>
             create_initial n now
               (s\<lparr> clients := clients s @ [client],
                   client_created_times := AList.update client now (client_created_times s),
                   pool := q,
                   next_client := Suc client \<rparr>))"

definition initialize :: "real \<Rightarrow> connection_pool \<Rightarrow> connection_pool option" where
  "initialize now s =
     (if initialized s then Some s
      else case create_initial (nat (min 10 (max_connections s))) now s of
             None \<Rightarrow> None
           | Some s1 \<Rightarrow>
               Some (s1\<lparr> metrics := (metrics s1)\<lparr> total_connections := int (length (clients s1)) \<rparr>,
                        initialized := True \<rparr>))"

text \<open>What \<open>get_client\<close> hands to the body of the \<open>async with\<close>.\<close>

datatype acquired = Degraded | Live client

definition exhausted_message :: "int \<Rightarrow> string" where
  "exhausted_message n = ''Connection pool exhausted ('' @ str_int n @ '' connections)''"

text \<open>
  The \<open>except Exception\<close> block of \<open>get_client\<close> at time \<open>now\<close>, and the two statements
  after the \<open>yield\<close> that run when the body completes.
\<close>

definition on_failure :: "real \<Rightarrow> connection_pool \<Rightarrow> connection_pool" where
  "on_failure now s =
     (let s1 = s\<lparr> failed_operations_count := failed_operations_count s + 1,
                  metrics := (metrics s)\<lparr> failed_operations := failed_operations (metrics s) + 1 \<rparr> \<rparr>
      in if failed_operations_count s1 \<ge> circuit_breaker_threshold s1
         then s1\<lparr> circuit_breaker_open := True, circuit_breaker_opened_at := Some now \<rparr>
         else s1)"

definition on_success :: "connection_pool \<Rightarrow> connection_pool" where
  "on_success s =
     s\<lparr> failed_operations_count := 0,
        metrics := (metrics s)\<lparr> successful_operations := successful_operations (metrics s) + 1 \<rparr> \<rparr>"

text \<open>
  The \<open>try\<close> block up to the \<open>yield\<close>, entered at time \<open>now\<close>.  A non-empty queue gives its
  first client at once.  On an empty queue \<open>wait_for\<close> raises \<open>TimeoutError\<close> after
  \<open>timeout\<close> seconds (the queue staying empty meanwhile); then a client is created below the
  limit, and at the limit the exhaustion exception is raised, which the \<open>except\<close> block
  counts before it reaches the caller (\<open>Inl\<close>).
\<close>

definition acquire :: "real \<Rightarrow> connection_pool \<Rightarrow> (string + acquired) \<times> connection_pool" where
  "acquire now s =
     (case pool s of
        client # rest \<Rightarrow>
          (Inr (Live client),
           s\<lparr> pool := rest,
              active_clients := insert client (active_clients s),
              metrics := (metrics s)\<lparr> active_connections := active_connections (metrics s) + 1 \<rparr> \<rparr>)
      | [] \<Rightarrow>
          (let later = now + max 0 (timeout s)
           in if int (length (clients s)) < max_connections s
              then (let client = next_client s
                    in (Inr (Live client),
                        s\<lparr> clients := clients s @ [client],
                           client_created_times :=
                             AList.update client later (client_created_times s),
                           next_client := Suc client,
                           active_clients := insert client (active_clients s),
                           metrics := (metrics s)
                             \<lparr> total_connections := total_connections (metrics s) + 1,
                               active_connections := active_connections (metrics s) + 1 \<rparr> \<rparr>))
              else (Inl (exhausted_message (max_connections s)), on_failure later s)))"

text \<open>
  \<open>get_client\<close> up to its \<open>yield\<close>, called at time \<open>now\<close>: the circuit-breaker gate, then
  \<open>acquire\<close>.  The breaker is only ever opened together with its timestamp; an open
  breaker without one would raise \<open>TypeError\<close> on the subtraction.
\<close>

definition get_client_enter :: "real \<Rightarrow> connection_pool \<Rightarrow> (string + acquired) \<times> connection_pool" where
  "get_client_enter now s =
     (if circuit_breaker_open s
      then (case circuit_breaker_opened_at s of
              None \<Rightarrow> (Inl ''TypeError'', s)
            | Some opened_at \<Rightarrow>
                if now - opened_at < circuit_breaker_timeout s
                then (Inr Degraded, s)
                else acquire now (s\<lparr> circuit_breaker_open := False,
                                     failed_operations_count := 0 \<rparr>))
      else acquire now s)"

text \<open>\<open>_should_recycle_client\<close> and \<open>_recycle_client\<close> at time \<open>now\<close>.\<close>

definition should_recycle_client :: "real \<Rightarrow> client \<Rightarrow> connection_pool \<Rightarrow> bool" where
  "should_recycle_client now client s =
     (case map_of (client_created_times s) client of
        None \<Rightarrow> True
      | Some created \<Rightarrow> now - created > recycle_interval s)"

definition recycle_client :: "real \<Rightarrow> client \<Rightarrow> connection_pool \<Rightarrow> connection_pool option" where
  "recycle_client now client s =
     (let new_client = next_client s
      in case queue_put (max_connections s) new_client (pool s) of
           None \<Rightarrow> None
         | Some q \<Rightarrow>
             Some (s\<lparr> clients := remove1 client (clients s) @ [new_client],
                      client_created_times :=
                        AList.update new_client now
                          (AList.delete client (client_created_times s)),
                      next_client := Suc new_client,
                      pool := q \<rparr>))"

text \<open>
  The \<open>finally\<close> block for a live client, at time \<open>now\<close>, for a call that started at
  \<open>start_time\<close>.
\<close>

definition release :: "real \<Rightarrow> real \<Rightarrow> client \<Rightarrow> connection_pool \<Rightarrow> connection_pool option" where
  "release now start_time client s =
     (let duration = now - start_time;
          total_ops = successful_operations (metrics s) + failed_operations (metrics s);
          s1 = (if total_ops > 0
                then s\<lparr> metrics := (metrics s)
                         \<lparr> average_response_time :=
                             (average_response_time (metrics s) * real_of_int (total_ops - 1)
                                + duration) / real_of_int total_ops \<rparr> \<rparr>
                else s);
          s2 = (if client \<in> active_clients s1
                then s1\<lparr> active_clients := active_clients s1 - {client},
                          metrics := (metrics s1)
                            \<lparr> active_connections := active_connections (metrics s1) - 1 \<rparr> \<rparr>
                else s1)
      in if should_recycle_client now client s2
         then recycle_client now client s2
         else (case queue_put (max_connections s2) client (pool s2) of
                 None \<Rightarrow> None
               | Some q \<Rightarrow> Some (s2\<lparr> pool := q \<rparr>)))"

text \<open>What the body of the \<open>async with\<close> does with the client it was given.\<close>

datatype body_result = Completes | Raises

text \<open>
  \<open>get_client\<close> from the \<open>yield\<close> on, for a live client, leaving at time \<open>now\<close>: the success
  statements or the \<open>except\<close> block, then the \<open>finally\<close> block.
\<close>

definition get_client_exit ::
  "real \<Rightarrow> real \<Rightarrow> client \<Rightarrow> body_result \<Rightarrow> connection_pool \<Rightarrow> connection_pool option" where
  "get_client_exit now start_time client body s =
     release now start_time client
       (case body of Completes \<Rightarrow> on_success s | Raises \<Rightarrow> on_failure now s)"

text \<open>
  One whole \<open>async with pool.get_client() as client: body\<close>, entered at \<open>t_enter\<close> and left at
  \<open>t_exit\<close>.  The caller sees either the body complete with the client it was given
  (\<open>Served\<close>) or an exception (\<open>Failed\<close>).  In degraded mode the generator returns right after
  the \<open>yield\<close>, outside the \<open>try\<close>: an exception of the body passes through uncounted.
\<close>

datatype op_result = Served acquired | Failed

record client_call =
  t_enter :: real
  t_exit :: real
  body :: body_result

definition get_client :: "client_call \<Rightarrow> connection_pool \<Rightarrow> (op_result \<times> connection_pool) option" where
  "get_client call s =
     (case get_client_enter (t_enter call) s of
        (Inl msg, s1) \<Rightarrow> Some (Failed, s1)
      | (Inr Degraded, s1) \<Rightarrow>
          Some (case body call of Completes \<Rightarrow> Served Degraded | Raises \<Rightarrow> Failed, s1)
      | (Inr (Live client), s1) \<Rightarrow>
          (case get_client_exit (t_exit call) (t_enter call) client (body call) s1 of
             None \<Rightarrow> None
           | Some s2 \<Rightarrow>
               Some (case body call of Completes \<Rightarrow> Served (Live client) | Raises \<Rightarrow> Failed, s2)))"

text \<open>Calls made one after the other, with the result of each.\<close>

fun run_calls :: "client_call list \<Rightarrow> connection_pool \<Rightarrow> (op_result list \<times> connection_pool) option" where
  "run_calls [] s = Some ([], s)"
| "run_calls (call # calls) s =
     (case get_client call s of
        None \<Rightarrow> None
      | Some (r, s1) \<Rightarrow>
          (case run_calls calls s1 of
             None \<Rightarrow> None
           | Some (rs, s2) \<Rightarrow> Some (r # rs, s2)))"

text \<open>The queue never holds more than its \<open>maxsize\<close>.\<close>

definition queue_ok :: "connection_pool \<Rightarrow> bool" where
  "queue_ok s = (max_connections s \<le> 0 \<or> int (length (pool s)) \<le> max_connections s)"

section \<open>The Redis cache (redis\_cache.py)\<close>

text \<open>\<open>sep.join(parts)\<close>\<close>

fun join :: "string \<Rightarrow> string list \<Rightarrow> string" where
  "join sep [] = []"
| "join sep [x] = x"
| "join sep (x # y # ys) = x @ sep @ join sep (y # ys)"

text \<open>
  \<open>_make_key(prefix, identifier, tenant_id=None, **kwargs)\<close>.  The keyword arguments are
  given with their values already formatted by \<open>str\<close> (\<open>None\<close> for a Python \<open>None\<close>);
  \<open>sorted(kwargs.items())\<close> orders them by name.
\<close>

definition make_key ::
  "string \<Rightarrow> string \<Rightarrow> string option \<Rightarrow> (string \<times> string option) list \<Rightarrow> string" where
  "make_key prefix identifier tenant_id kwargs =
     join '':''
       ([prefix, identifier]
        @ (case tenant_id of
             None \<Rightarrow> []
           | Some t \<Rightarrow> if t = [] then [] else [''tenant:'' @ t])
        @ concat (map (\<lambda>(key, v). case v of None \<Rightarrow> [] | Some x \<Rightarrow> [key @ '':'' @ x])
                    (sort_key fst kwargs)))"

text \<open>
  The Redis server behind \<open>redis_client\<close>: the stored keys, each with its JSON text and
  the time at which \<open>SETEX\<close> lets it expire.  \<open>redis_client\<close> is \<open>None\<close> when the
  connection could not be made at start-up.
\<close>

record redis_entry =
  re_value :: string
  re_expires_at :: real

record redis_cache_service =
  redis_client :: "(string \<times> redis_entry) list option"
  default_ttl :: int

text \<open>
  Glob-style patterns of the Redis \<open>KEYS\<close> command: \<open>*\<close> matches any run of characters,
  \<open>?\<close> any one character, \<open>[...]\<close> one character of a class (single characters and
  ranges \<open>a-z\<close>, negated by a leading \<open>^\<close>), and a backslash takes the next character
  literally.
\<close>

datatype class_item = One char | Range char char

datatype glob_tok = Star | AnyChar | Lit char | CharClass bool "class_item list"

fun tokens :: "string \<Rightarrow> glob_tok list"
  and class_tokens :: "bool \<Rightarrow> class_item list \<Rightarrow> string \<Rightarrow> glob_tok list" where
  "tokens [] = []"
| "tokens (c # cs) =
     (if c = CHR ''*'' then Star # tokens cs
      else if c = CHR ''?'' then AnyChar # tokens cs
      else if c = CHR 0x5C then (case cs of [] \<Rightarrow> [Lit c] | d # ds \<Rightarrow> Lit d # tokens ds)
      else if c = CHR ''['' then
        (case cs of
           [] \<Rightarrow> [CharClass False []]
         | d # ds \<Rightarrow> if d = CHR ''^'' then class_tokens True [] ds
                     else class_tokens False [] (d # ds))
      else Lit c # tokens cs)"
| "class_tokens neg items [] = [CharClass neg items]"
| "class_tokens neg items [c] =
     (if c = CHR '']'' then [CharClass neg items] else [CharClass neg (items @ [One c])])"
| "class_tokens neg items [c, d] =
     (if c = CHR '']'' then CharClass neg items # tokens [d]
      else if c = CHR 0x5C then [CharClass neg (items @ [One d])]
      else class_tokens neg (items @ [One c]) [d])"
| "class_tokens neg items (c # d # e # es) =
     (if c = CHR '']'' then CharClass neg items # tokens (d # e # es)
      else if c = CHR 0x5C then class_tokens neg (items @ [One d]) (e # es)
      else if d = CHR ''-'' then class_tokens neg (items @ [Range c e]) es
      else class_tokens neg (items @ [One c]) (d # e # es))"

definition class_match :: "class_item list \<Rightarrow> char \<Rightarrow> bool" where
  "class_match items c =
     list_ex (\<lambda>item. case item of
                 One d \<Rightarrow> d = c
               | Range a b \<Rightarrow> min a b \<le> c \<and> c \<le> max a b) items"

fun glob_match :: "glob_tok list \<Rightarrow> string \<Rightarrow> bool" where
  "glob_match [] s = (s = [])"
| "glob_match (Star # ts) [] = glob_match ts []"
| "glob_match (Star # ts) (c # cs) = (glob_match ts (c # cs) \<or> glob_match (Star # ts) cs)"
| "glob_match (AnyChar # ts) [] = False"
| "glob_match (AnyChar # ts) (c # cs) = glob_match ts cs"
| "glob_match (Lit x # ts) [] = False"
| "glob_match (Lit x # ts) (c # cs) = (x = c \<and> glob_match ts cs)"
| "glob_match (CharClass neg items # ts) [] = False"
| "glob_match (CharClass neg items # ts) (c # cs) =
     (class_match items c \<noteq> neg \<and> glob_match ts cs)"

text \<open>The keys the server holds at time \<open>now\<close>, and \<open>KEYS pattern\<close>.\<close>

definition live :: "real \<Rightarrow> (string \<times> redis_entry) list \<Rightarrow> (string \<times> redis_entry) list" where
  "live now store = filter (\<lambda>(key, entry). now < re_expires_at entry) store"

definition redis_keys :: "real \<Rightarrow> string \<Rightarrow> (string \<times> redis_entry) list \<Rightarrow> string list" where
  "redis_keys now pattern store =
     filter (glob_match (tokens pattern)) (map fst (live now store))"

text \<open>
  The methods of \<open>RedisCacheService\<close> at time \<open>now\<close>.  \<open>reachable\<close> tells whether the
  server answers; when it does not, the client raises and the \<open>except\<close> block returns the
  default.  Values are JSON texts.
\<close>

definition cache_get ::
  "bool \<Rightarrow> real \<Rightarrow> string \<Rightarrow> redis_cache_service \<Rightarrow> string option" where
  "cache_get reachable now key s =
     (case redis_client s of
        None \<Rightarrow> None
      | Some store \<Rightarrow>
          if \<not> reachable then None
          else (case map_of (live now store) key of
                  None \<Rightarrow> None
                | Some entry \<Rightarrow> if re_value entry \<noteq> [] then Some (re_value entry) else None))"

definition cache_set ::
  "bool \<Rightarrow> real \<Rightarrow> string \<Rightarrow> string \<Rightarrow> int option \<Rightarrow> redis_cache_service
     \<Rightarrow> bool \<times> redis_cache_service" where
  "cache_set reachable now key v ttl s =
     (case redis_client s of
        None \<Rightarrow> (False, s)
      | Some store \<Rightarrow>
          (let ttl1 = (case ttl of
                         None \<Rightarrow> default_ttl s
                       | Some t \<Rightarrow> if t \<noteq> 0 then t else default_ttl s)
           in if \<not> reachable \<or> ttl1 \<le> 0 then (False, s)
              else (True,
                    s\<lparr> redis_client :=
                         Some (AList.update key
                                 \<lparr> re_value = v, re_expires_at = now + real_of_int ttl1 \<rparr>
                                 (live now store)) \<rparr>)))"

definition delete_pattern ::
  "bool \<Rightarrow> real \<Rightarrow> string \<Rightarrow> redis_cache_service \<Rightarrow> int \<times> redis_cache_service" where
  "delete_pattern reachable now pattern s =
     (case redis_client s of
        None \<Rightarrow> (0, s)
      | Some store \<Rightarrow>
          if \<not> reachable then (0, s)
          else (let keys = redis_keys now pattern store
                in if keys \<noteq> []
                   then (int (length keys),
                         s\<lparr> redis_client :=
                              Some (filter (\<lambda>(key, entry). key \<notin> set keys) (live now store)) \<rparr>)
                   else (0, s)))"

text \<open>\<open>GuestPortalCache\<close>: the templates list of a tenant, and the bulk invalidation.\<close>

definition set_templates ::
  "bool \<Rightarrow> real \<Rightarrow> string \<Rightarrow> string \<Rightarrow> redis_cache_service \<Rightarrow> bool \<times> redis_cache_service" where
  "set_templates reachable now tenant_id templates s =
     cache_set reachable now (make_key ''templates'' ''all'' (Some tenant_id) []) templates
       (Some (30 * 60)) s"

definition get_templates ::
  "bool \<Rightarrow> real \<Rightarrow> string \<Rightarrow> redis_cache_service \<Rightarrow> string option" where
  "get_templates reachable now tenant_id s =
     cache_get reachable now (make_key ''templates'' ''all'' (Some tenant_id) []) s"

definition invalidate_tenant_cache ::
  "bool \<Rightarrow> real \<Rightarrow> string \<Rightarrow> redis_cache_service \<Rightarrow> int \<times> redis_cache_service" where
  "invalidate_tenant_cache reachable now tenant_id s =
     delete_pattern reachable now (''*:tenant:'' @ tenant_id @ ''*'') s"

section \<open>Retry eligibility\<close>

text \<open>
  C8.  For every operation id and every error type (one of the three always-eligible
  classes, any other string, or none), \<open>should_retry\<close> is false once the recorded retry
  count has reached \<open>max_retries\<close> and true while it is below: the answer is exactly
  ``the count is below the cap'', whatever the error type.
\<close>

theorem should_retry_iff_below_cap:
  "should_retry s operation_id error_type
     = (retry_count_of s operation_id < max_retries s)"
  by (simp add: should_retry_def Let_def split: option.splits)

theorem should_retry_iff_below_cap_witness:
  "\<not> should_retry (record_failure 7 (Some ''op'') (record_failure 5 (Some ''op'') (init_tracker 2 1)))
        ''op'' (Some ''connection'')
   \<and> should_retry (record_failure 5 (Some ''op'') (init_tracker 2 1)) ''op'' (Some ''other'')"
  using should_retry_iff_below_cap [of "record_failure 7 (Some ''op'') (record_failure 5 (Some ''op'') (init_tracker 2 1))" "''op''" "Some ''connection''"]
        should_retry_iff_below_cap [of "record_failure 5 (Some ''op'') (init_tracker 2 1)" "''op''" "Some ''other''"]
  by (simp add: record_failure_def init_tracker_def retry_count_of_def)

section \<open>Shape of a fallback response\<close>

text \<open>
  C10.  The \<open>data\<close> attribute of every constructed \<open>FallbackResponse\<close> is a list: a list
  payload is kept as it is, any other truthy payload (a non-empty dict, say) is wrapped as
  a one-element list, a falsy payload becomes the empty list; \<open>count\<close> is the length of
  that list.
\<close>

theorem FallbackResponse_list_shaped:
  "fr_data (FallbackResponse d)
      = PList (case d of PList xs \<Rightarrow> xs | _ \<Rightarrow> if truthy d then [d] else [])
   \<and> (\<exists>xs. fr_data (FallbackResponse d) = PList xs
             \<and> fr_count (FallbackResponse d) = int (length xs))"
  by (cases d) (simp_all add: FallbackResponse_def Let_def)

theorem FallbackResponse_list_shaped_witness:
  "fr_data (FallbackResponse (PDict [(''status'', PStr ''degraded'')]))
      = PList [PDict [(''status'', PStr ''degraded'')]]
   \<and> fr_data (FallbackResponse (PDict [])) = PList []
   \<and> fr_data (FallbackResponse (PList [PInt 1, PInt 2])) = PList [PInt 1, PInt 2]"
  using FallbackResponse_list_shaped [of "PDict [(''status'', PStr ''degraded'')]"]
        FallbackResponse_list_shaped [of "PDict []"]
        FallbackResponse_list_shaped [of "PList [PInt 1, PInt 2]"]
  by simp

section \<open>The fallback cache\<close>

lemma list_all_update:
  "list_all P al \<Longrightarrow> P (k, v) \<Longrightarrow> list_all P (AList.update k v al)"
  by (induction al) auto

lemma list_all_delete:
  "list_all P al \<Longrightarrow> list_all P (AList.delete k al)"
  by (induction al) auto

lemma list_all_lookup:
  "list_all P al \<Longrightarrow> map_of al k = Some v \<Longrightarrow> P (k, v)"
  by (auto simp: list_all_iff dest: map_of_SomeD)

text \<open>
  C1 (as the code has it).  An entry older than the TTL is not served: \<open>get_cached_response\<close>
  returns the stored response, with the \<open>_fallback_cached\<close> marker and the capture time
  \<open>_cached_at\<close> added and every other field kept, only while the entry is younger than
  the TTL; for an entry whose age has reached the TTL it returns \<open>None\<close> and deletes
  the entry.
\<close>

theorem get_cached_response_by_age:
  "map_of (cache s) cache_key = Some item \<Longrightarrow>
     fst (get_cached_response now cache_key s)
       = (if now - ci_timestamp item < cache_ttl s then Some (annotate_item item) else None)
     \<and> (cache_ttl s \<le> now - ci_timestamp item \<longrightarrow>
          map_of (cache (snd (get_cached_response now cache_key s))) cache_key = None)
     \<and> map_of (annotate_item item) ''_fallback_cached'' = Some (PBool True)
     \<and> map_of (annotate_item item) ''_cached_at'' = Some (PFloat (ci_timestamp item))
     \<and> (\<forall>field. field \<noteq> ''_fallback_cached'' \<and> field \<noteq> ''_cached_at'' \<longrightarrow>
          map_of (annotate_item item) field = map_of (ci_data item) field)"
  by (simp add: get_cached_response_def annotate_item_def update_conv' delete_conv')

theorem get_cached_response_by_age_witness:
  "map_of (cache (cache_response 0 ''users'' (PDict [(''data'', PList [PInt 7])])
                   init_fallback_service)) ''users''
     = Some \<lparr> ci_data = [(''data'', PList [PInt 7])], ci_timestamp = 0 \<rparr>
   \<and> fst (get_cached_response 299 ''users''
            (cache_response 0 ''users'' (PDict [(''data'', PList [PInt 7])])
               init_fallback_service))
       = Some [(''data'', PList [PInt 7]), (''_fallback_cached'', PBool True),
               (''_cached_at'', PFloat 0)]
   \<and> fst (get_cached_response 300 ''users''
            (cache_response 0 ''users'' (PDict [(''data'', PList [PInt 7])])
               init_fallback_service))
       = None"
proof -
  let ?s = "cache_response 0 ''users'' (PDict [(''data'', PList [PInt 7])]) init_fallback_service"
  let ?item = "\<lparr> ci_data = [(''data'', PList [PInt 7])], ci_timestamp = 0 \<rparr>"
  have stored: "map_of (cache ?s) ''users'' = Some ?item"
    by (simp add: cache_response_def init_fallback_service_def)
  have ttl: "cache_ttl ?s = 300"
    by (simp add: cache_response_def init_fallback_service_def)
  show ?thesis
    using stored ttl
      get_cached_response_by_age [OF stored, of 299]
      get_cached_response_by_age [OF stored, of 300]
    by (simp add: annotate_item_def)
qed

text \<open>
  The claim as stated fails: an entry captured at time 0 and read at time 1000, with the
  default TTL of 300 seconds, is answered with \<open>None\<close>.
\<close>

theorem get_cached_response_expired_counterexample:
  "map_of (cache (cache_response 0 ''users'' (PDict [(''data'', PList [PInt 7])])
                   init_fallback_service)) ''users''
     = Some \<lparr> ci_data = [(''data'', PList [PInt 7])], ci_timestamp = 0 \<rparr>
   \<and> fst (get_cached_response 1000 ''users''
            (cache_response 0 ''users'' (PDict [(''data'', PList [PInt 7])])
               init_fallback_service))
       = None"
  by (simp add: get_cached_response_def cache_response_def init_fallback_service_def)

subsection \<open>Only error-free responses are cached\<close>

lemma dict_get_annotate_error:
  "dict_get (PDict (annotate_item item)) ''error'' = dict_get (PDict (ci_data item)) ''error''"
  by (simp add: annotate_item_def update_conv')

lemma error_free_cache_response: "error_free s \<Longrightarrow> error_free (cache_response now k r s)"
  by (cases r) (auto simp: error_free_def cache_response_def intro!: list_all_update)

lemma error_free_get_cached_response:
  "error_free s \<Longrightarrow> error_free (snd (get_cached_response now k s))"
  unfolding error_free_def get_cached_response_def
  by (auto split: option.splits simp del: dict_get.simps
        simp: dict_get_annotate_error intro!: list_all_update list_all_delete
        dest: list_all_lookup)

lemma error_free_get_fallback_response:
  "error_free s \<Longrightarrow> error_free (snd (get_fallback_response h now ty params s))"
  using error_free_get_cached_response [of s now "generate_cache_key h ty params"]
  by (auto simp: get_fallback_response_def Let_def split: prod.splits option.splits)

lemma list_all_fold_delete:
  "list_all P (cache s) \<Longrightarrow>
     list_all P (cache (fold (\<lambda>key t. t\<lparr> cache := AList.delete key (cache t) \<rparr>) ks s))"
proof (induction ks arbitrary: s)
  case Nil
  then show ?case by simp
next
  case (Cons k ks)
  have "list_all P (cache (s\<lparr> cache := AList.delete k (cache s) \<rparr>))"
    using Cons.prems by (simp add: list_all_delete)
  from Cons.IH [OF this] show ?case by simp
qed

lemma error_free_cleanup: "error_free s \<Longrightarrow> error_free (cleanup_expired_cache now s)"
  unfolding error_free_def cleanup_expired_cache_def by (rule list_all_fold_delete)

lemma error_free_apply: "error_free s \<Longrightarrow> error_free (apply_fb_op h op s)"
  by (cases op)
     (simp_all add: error_free_cache_response error_free_get_cached_response
        error_free_get_fallback_response error_free_cleanup,
      simp add: error_free_def clear_cache_def)

lemma error_free_fold: "error_free s \<Longrightarrow> error_free (fold (apply_fb_op h) ops s)"
  by (induction ops arbitrary: s) (auto intro: error_free_apply)

lemma error_free_init: "error_free init_fallback_service"
  by (simp add: error_free_def init_fallback_service_def)

lemma cache_response_rejects:
  "\<not> is_dict r \<or> truthy (dict_get r ''error'') \<Longrightarrow> cache_response now k r s = s"
  by (cases r) (auto simp: cache_response_def)

lemma cache_response_stores:
  "\<not> truthy (dict_get (PDict items) ''error'') \<Longrightarrow>
     map_of (cache (cache_response now k (PDict items) s)) k
       = Some \<lparr> ci_data = items, ci_timestamp = now \<rparr>"
  by (auto simp: cache_response_def update_conv')

lemma get_cached_response_absent:
  "map_of (cache s) k = None \<Longrightarrow> get_cached_response now k s = (None, s)"
  by (simp add: get_cached_response_def)

text \<open>
  C9.  \<open>cache_response\<close> stores a response exactly when it is a dict without a truthy
  \<open>error\<close> field, and otherwise leaves the cache as it was.  So for every key,
  \<^verbatim>\<open>cache_response(key, {"error": "x"})\<close> stores nothing: a key without an entry is still
  without one, and the following \<open>get_cached_response(key)\<close> returns \<open>None\<close>, on a fresh
  service in particular.  After any sequence of operations on a fresh service, no cached
  entry holds a response with a truthy \<open>error\<close>.
\<close>

theorem cache_response_only_error_free:
  "(\<not> truthy (dict_get (PDict items) ''error'') \<longrightarrow>
      map_of (cache (cache_response now k (PDict items) s)) k
        = Some \<lparr> ci_data = items, ci_timestamp = now \<rparr>)
   \<and> (\<not> is_dict r \<or> truthy (dict_get r ''error'') \<longrightarrow> cache_response now k r s = s)
   \<and> cache_response now k (PDict [(''error'', PStr ''x'')]) s = s
   \<and> (map_of (cache s) k = None \<longrightarrow>
        fst (get_cached_response later k
               (cache_response now k (PDict [(''error'', PStr ''x'')]) s)) = None)
   \<and> error_free (fold (apply_fb_op h) ops init_fallback_service)
   \<and> (map_of (cache s) k = None \<longrightarrow>
        map_of (cache (cache_response now k (PDict [(''error'', PStr ''x'')]) s)) k = None)
   \<and> fst (get_cached_response later k
            (cache_response now k (PDict [(''error'', PStr ''x'')]) init_fallback_service))
       = None"
proof -
  have rej: "cache_response now k (PDict [(''error'', PStr ''x'')]) s = s"
    by (rule cache_response_rejects) simp
  have rej_init: "cache_response now k (PDict [(''error'', PStr ''x'')]) init_fallback_service
                    = init_fallback_service"
    by (rule cache_response_rejects) simp
  have fresh: "map_of (cache init_fallback_service) k = None"
    by (simp add: init_fallback_service_def)
  have "fst (get_cached_response later k
               (cache_response now k (PDict [(''error'', PStr ''x'')]) init_fallback_service))
          = None"
    using get_cached_response_absent [OF fresh, of later] by (simp add: rej_init)
  then show ?thesis
    using rej cache_response_stores [of items now k s] cache_response_rejects [of r now k s]
      get_cached_response_absent [of s k later]
      error_free_fold [OF error_free_init, of h ops]
    by simp
qed

theorem cache_response_only_error_free_witness:
  "map_of (cache (cache_response 5 ''users'' (PDict [(''data'', PList [])]) init_fallback_service))
       ''users''
     = Some \<lparr> ci_data = [(''data'', PList [])], ci_timestamp = 5 \<rparr>
   \<and> cache_response 5 ''users'' (PStr ''plain text'') init_fallback_service = init_fallback_service
   \<and> fst (get_cached_response 6 ''users''
            (cache_response 5 ''users'' (PDict [(''error'', PStr ''x'')]) init_fallback_service))
       = None
   \<and> error_free (fold (apply_fb_op (\<lambda>p. ''0''))
        [CacheResponse 0 ''users'' (PDict [(''data'', PList [])]),
         CacheResponse 1 ''users'' (PDict [(''error'', PStr ''x'')]),
         GetCachedResponse 2 ''users''] init_fallback_service)"
proof -
  have absent: "map_of (cache init_fallback_service) ''users'' = None"
    by (simp add: init_fallback_service_def)
  have ok: "\<not> truthy (dict_get (PDict [(''data'', PList [])]) ''error'')"
    by simp
  have bad: "\<not> is_dict (PStr ''plain text'') \<or> truthy (dict_get (PStr ''plain text'') ''error'')"
    by simp
  note inst = cache_response_only_error_free
          [of "[(''data'', PList [])]" 5 "''users''" init_fallback_service "PStr ''plain text''" 6
              "\<lambda>p. ''0''"
              "[CacheResponse 0 ''users'' (PDict [(''data'', PList [])]),
                CacheResponse 1 ''users'' (PDict [(''error'', PStr ''x'')]),
                GetCachedResponse 2 ''users'']"]
  from inst ok have c1: "map_of (cache (cache_response 5 ''users'' (PDict [(''data'', PList [])])
                                         init_fallback_service)) ''users''
                          = Some \<lparr> ci_data = [(''data'', PList [])], ci_timestamp = 5 \<rparr>"
    by blast
  from inst bad have c2: "cache_response 5 ''users'' (PStr ''plain text'') init_fallback_service
                           = init_fallback_service"
    by blast
  from inst absent have c3: "fst (get_cached_response 6 ''users''
            (cache_response 5 ''users'' (PDict [(''error'', PStr ''x'')]) init_fallback_service))
       = None"
    by blast
  from inst have c4: "error_free (fold (apply_fb_op (\<lambda>p. ''0''))
        [CacheResponse 0 ''users'' (PDict [(''data'', PList [])]),
         CacheResponse 1 ''users'' (PDict [(''error'', PStr ''x'')]),
         GetCachedResponse 2 ''users''] init_fallback_service)"
    by blast
  from c1 c2 c3 c4 show ?thesis by blast
qed

section \<open>Degraded writes\<close>

lemma is_write_update: "is_write qp \<Longrightarrow> is_write (AList.update k v qp)"
  by (auto simp: is_write_def update_conv')

lemma is_write_apply_call:
  "is_write (query_params t) \<Longrightarrow> is_write (query_params (apply_call t c))"
  by (cases c)
     (simp_all add: tbl_select_def tbl_insert_def tbl_update_def tbl_delete_def tbl_eq_def
        tbl_limit_def tbl_order_def Let_def is_write_update)

lemma is_write_call_apply:
  "is_write_call c \<Longrightarrow> is_write (query_params (apply_call t c))"
  by (cases c)
     (simp_all add: tbl_insert_def tbl_update_def tbl_delete_def is_write_def update_conv')

lemma is_write_foldl:
  "is_write (query_params t) \<Longrightarrow> is_write (query_params (foldl apply_call t calls))"
  by (induction calls arbitrary: t) (simp_all add: is_write_apply_call)

lemma is_write_chain:
  "list_ex is_write_call calls \<Longrightarrow> is_write (query_params (foldl apply_call t calls))"
proof (induction calls arbitrary: t)
  case Nil
  then show ?case by simp
next
  case (Cons c calls)
  show ?case
  proof (cases "is_write_call c")
    case True
    then show ?thesis by (simp add: is_write_foldl is_write_call_apply)
  next
    case False
    with Cons show ?thesis by simp
  qed
qed

text \<open>
  C4.  On a degraded table, every query built with an \<open>insert\<close>, \<open>update\<close> or \<open>delete\<close>
  somewhere in its chain of calls returns on \<open>execute\<close> the write-unavailable response and
  leaves the fallback service untouched: a one-element list holding a dict whose \<open>error\<close>
  is the (truthy) message that writes are temporarily unavailable, whose \<open>fallback\<close> is
  \<open>True\<close> and whose \<open>retry_after\<close> is 60.
\<close>

theorem degraded_write_is_explicit_error:
  "list_ex is_write_call calls \<Longrightarrow>
     tbl_execute param_hash now (foldl apply_call (table name) calls) s
       = (FallbackResponse (PDict write_unavailable), s)
     \<and> fr_data (FallbackResponse (PDict write_unavailable)) = PList [PDict write_unavailable]
     \<and> fr_count (FallbackResponse (PDict write_unavailable)) = 1
     \<and> fr_fallback (FallbackResponse (PDict write_unavailable))
     \<and> dict_get (PDict write_unavailable) ''error''
         = PStr ''Write operations temporarily unavailable''
     \<and> truthy (dict_get (PDict write_unavailable) ''error'')
     \<and> dict_get (PDict write_unavailable) ''fallback'' = PBool True
     \<and> dict_get (PDict write_unavailable) ''retry_after'' = PInt 60"
  by (simp add: tbl_execute_def is_write_chain FallbackResponse_def write_unavailable_def)

theorem degraded_write_is_explicit_error_witness:
  "list_ex is_write_call [Update (PDict [(''name'', PStr ''n'')]), Eq ''id'' (PInt 1)]
   \<and> tbl_execute (\<lambda>p. ''0'') 10
        (tbl_eq ''id'' (PInt 1) (tbl_update (PDict [(''name'', PStr ''n'')]) (table ''users'')))
        init_fallback_service
      = (FallbackResponse (PDict write_unavailable), init_fallback_service)"
proof -
  have w: "list_ex is_write_call [Update (PDict [(''name'', PStr ''n'')]), Eq ''id'' (PInt 1)]"
    by simp
  show ?thesis
    using w degraded_write_is_explicit_error [OF w, of "\<lambda>p. ''0''" 10 "''users''" init_fallback_service]
    by simp
qed

section \<open>The circuit breaker\<close>

subsection \<open>The breaker fields through one call\<close>

lemma on_failure_breaker:
  "failed_operations_count (on_failure now s) = failed_operations_count s + 1"
  "circuit_breaker_threshold (on_failure now s) = circuit_breaker_threshold s"
  "circuit_breaker_timeout (on_failure now s) = circuit_breaker_timeout s"
  "circuit_breaker_open (on_failure now s)
     = (circuit_breaker_open s \<or> circuit_breaker_threshold s \<le> failed_operations_count s + 1)"
  "circuit_breaker_opened_at (on_failure now s)
     = (if circuit_breaker_threshold s \<le> failed_operations_count s + 1 then Some now
        else circuit_breaker_opened_at s)"
  by (simp_all add: on_failure_def Let_def)

lemma on_success_breaker:
  "failed_operations_count (on_success s) = 0"
  "circuit_breaker_threshold (on_success s) = circuit_breaker_threshold s"
  "circuit_breaker_timeout (on_success s) = circuit_breaker_timeout s"
  "circuit_breaker_open (on_success s) = circuit_breaker_open s"
  "circuit_breaker_opened_at (on_success s) = circuit_breaker_opened_at s"
  by (simp_all add: on_success_def)

lemma release_breaker:
  assumes "release now start_time client s = Some s'"
  shows "failed_operations_count s' = failed_operations_count s
       \<and> circuit_breaker_threshold s' = circuit_breaker_threshold s
       \<and> circuit_breaker_timeout s' = circuit_breaker_timeout s
       \<and> circuit_breaker_open s' = circuit_breaker_open s
       \<and> circuit_breaker_opened_at s' = circuit_breaker_opened_at s"
  using assms
  by (auto simp: release_def recycle_client_def Let_def split: if_splits option.splits)

lemma acquire_live_breaker:
  assumes "acquire now s = (Inr a, s')"
  shows "a \<noteq> Degraded
       \<and> failed_operations_count s' = failed_operations_count s
       \<and> circuit_breaker_threshold s' = circuit_breaker_threshold s
       \<and> circuit_breaker_timeout s' = circuit_breaker_timeout s
       \<and> circuit_breaker_open s' = circuit_breaker_open s
       \<and> circuit_breaker_opened_at s' = circuit_breaker_opened_at s"
  using assms
  by (auto simp: acquire_def Let_def split: list.splits if_splits)

lemma acquire_failed:
  assumes "acquire now s = (Inl msg, s')"
  shows "s' = on_failure (now + max 0 (timeout s)) s \<and> msg = exhausted_message (max_connections s)
         \<and> pool s = [] \<and> max_connections s \<le> int (length (clients s))"
  using assms
  by (auto simp: acquire_def Let_def split: list.splits if_splits)

lemma get_client_enter_closed:
  "\<not> circuit_breaker_open s \<Longrightarrow> get_client_enter now s = acquire now s"
  by (simp add: get_client_enter_def)

text \<open>One call on a closed breaker.\<close>

lemma get_client_closed_step:
  assumes closed: "\<not> circuit_breaker_open s"
    and step: "get_client call s = Some (r, s')"
  shows "circuit_breaker_threshold s' = circuit_breaker_threshold s
       \<and> circuit_breaker_timeout s' = circuit_breaker_timeout s
       \<and> r \<noteq> Served Degraded
       \<and> (r = Failed \<longrightarrow>
            failed_operations_count s' = failed_operations_count s + 1
            \<and> circuit_breaker_open s'
                = (circuit_breaker_threshold s \<le> failed_operations_count s + 1))
       \<and> (r \<noteq> Failed \<longrightarrow> failed_operations_count s' = 0 \<and> \<not> circuit_breaker_open s')
       \<and> (circuit_breaker_open s' \<longrightarrow> circuit_breaker_opened_at s' \<noteq> None)"
proof (cases "acquire (t_enter call) s")
  case (Pair res s1)
  show ?thesis
  proof (cases res)
    case (Inl msg)
    with Pair have s1: "s1 = on_failure (t_enter call + max 0 (timeout s)) s"
      using acquire_failed by blast
    from step closed Pair Inl have "r = Failed" "s' = s1"
      by (auto simp: get_client_def get_client_enter_closed)
    with s1 closed show ?thesis
      by (simp add: on_failure_breaker)
  next
    case (Inr a)
    with Pair acquire_live_breaker [of "t_enter call" s a s1]
    have a: "a \<noteq> Degraded"
      and s1: "failed_operations_count s1 = failed_operations_count s"
        "circuit_breaker_threshold s1 = circuit_breaker_threshold s"
        "circuit_breaker_timeout s1 = circuit_breaker_timeout s"
        "circuit_breaker_open s1 = circuit_breaker_open s"
      by simp_all
    from a obtain client where client: "a = Live client" by (cases a) auto
    let ?mid = "case body call of Completes \<Rightarrow> on_success s1 | Raises \<Rightarrow> on_failure (t_exit call) s1"
    from step closed Pair Inr client
    have rel: "release (t_exit call) (t_enter call) client ?mid = Some s'"
      and r: "r = (case body call of Completes \<Rightarrow> Served (Live client) | Raises \<Rightarrow> Failed)"
      by (auto simp: get_client_def get_client_enter_closed get_client_exit_def
            split: option.splits)
    note rb = release_breaker [OF rel]
    show ?thesis
    proof (cases "body call")
      case Completes
      with rb r s1 closed show ?thesis by (simp add: on_success_breaker)
    next
      case Raises
      with rb r s1 closed show ?thesis by (simp add: on_failure_breaker)
    qed
  qed
qed

lemma run_calls_Cons_Some:
  "run_calls (call # calls) s = Some (rs, s') \<longleftrightarrow>
     (\<exists>r s1 rs1. get_client call s = Some (r, s1) \<and> run_calls calls s1 = Some (rs1, s')
                  \<and> rs = r # rs1)"
  by (auto split: option.splits)

lemma run_calls_append:
  "run_calls (xs @ ys) s = Some (rs, s') \<longleftrightarrow>
     (\<exists>rs1 s1 rs2. run_calls xs s = Some (rs1, s1) \<and> run_calls ys s1 = Some (rs2, s')
                   \<and> rs = rs1 @ rs2)"
proof (induction xs arbitrary: s rs)
  case Nil
  then show ?case by simp
next
  case (Cons x xs)
  show ?case
    unfolding append_Cons run_calls_Cons_Some Cons.IH
    by (auto simp: run_calls_Cons_Some)
qed

lemma run_calls_length:
  "run_calls calls s = Some (rs, s') \<Longrightarrow> length rs = length calls"
  by (induction calls arbitrary: s rs) (auto split: option.splits)

text \<open>Consecutive failures on a closed breaker.\<close>

lemma failures_accumulate:
  assumes "run_calls calls s = Some (rs, s')"
    and "list_all (\<lambda>r. r = Failed) rs"
    and "\<not> circuit_breaker_open s"
    and "failed_operations_count s < circuit_breaker_threshold s"
    and "failed_operations_count s + int (length calls) \<le> circuit_breaker_threshold s"
  shows "failed_operations_count s' = failed_operations_count s + int (length calls)
       \<and> circuit_breaker_threshold s' = circuit_breaker_threshold s
       \<and> circuit_breaker_timeout s' = circuit_breaker_timeout s
       \<and> circuit_breaker_open s' = (failed_operations_count s' = circuit_breaker_threshold s)
       \<and> (circuit_breaker_open s' \<longrightarrow> circuit_breaker_opened_at s' \<noteq> None)"
  using assms
proof (induction calls arbitrary: s rs)
  case Nil
  then show ?case by simp
next
  case (Cons call calls)
  from Cons.prems(1) obtain r s1 rs1 where
    step: "get_client call s = Some (r, s1)" and rest: "run_calls calls s1 = Some (rs1, s')"
    and rs: "rs = r # rs1"
    unfolding run_calls_Cons_Some by blast
  from rs Cons.prems(2) have r: "r = Failed" and rs1: "list_all (\<lambda>r. r = Failed) rs1"
    by simp_all
  note st = get_client_closed_step [OF Cons.prems(3) step]
  show ?case
  proof (cases calls)
    case Nil
    with rest have "s' = s1" by simp
    with st r Nil Cons.prems(5) show ?thesis by auto
  next
    case (Cons c cs)
    with Cons.prems(5) have lt: "failed_operations_count s + 1 < circuit_breaker_threshold s"
      by simp
    with st r have closed1: "\<not> circuit_breaker_open s1"
      and cnt1: "failed_operations_count s1 = failed_operations_count s + 1"
      and th1: "circuit_breaker_threshold s1 = circuit_breaker_threshold s"
      and to1: "circuit_breaker_timeout s1 = circuit_breaker_timeout s"
      by auto
    have "failed_operations_count s1 < circuit_breaker_threshold s1"
      using lt cnt1 th1 by simp
    moreover have "failed_operations_count s1 + int (length calls) \<le> circuit_breaker_threshold s1"
      using Cons.prems(5) cnt1 th1 by simp
    ultimately show ?thesis
      using Cons.IH [OF rest rs1 closed1] cnt1 th1 to1 by simp
  qed
qed

text \<open>A call made after the previous one has left always returns.\<close>

lemma acquire_live_room:
  assumes "acquire now s = (Inr (Live client), s1)" and "queue_ok s"
  shows "max_connections s1 \<le> 0 \<or> int (length (pool s1)) < max_connections s1"
  using assms
  by (auto simp: acquire_def queue_ok_def Let_def split: list.splits if_splits)

lemma acquire_failed_queue_ok:
  assumes "acquire now s = (Inl msg, s1)" and "queue_ok s"
  shows "queue_ok s1"
  using assms
  by (auto simp: acquire_def queue_ok_def on_failure_def Let_def split: list.splits if_splits)

lemma release_returns:
  assumes "max_connections s \<le> 0 \<or> int (length (pool s)) < max_connections s"
  shows "\<exists>s'. release now start_time client s = Some s' \<and> queue_ok s'"
  using assms
  by (auto simp: release_def recycle_client_def queue_put_def queue_ok_def Let_def)

lemma outcome_keeps_room:
  "max_connections (on_success s) = max_connections s"
  "pool (on_success s) = pool s"
  "max_connections (on_failure now s) = max_connections s"
  "pool (on_failure now s) = pool s"
  by (simp_all add: on_success_def on_failure_def Let_def)

lemma acquire_returns:
  assumes "queue_ok s"
  shows "\<exists>r s'. (case acquire now s of
                   (Inl msg, s1) \<Rightarrow> Some (Failed, s1)
                 | (Inr Degraded, s1) \<Rightarrow> Some (case b of Completes \<Rightarrow> Served Degraded | Raises \<Rightarrow> Failed, s1)
                 | (Inr (Live client), s1) \<Rightarrow>
                     (case get_client_exit tx te client b s1 of
                        None \<Rightarrow> None
                      | Some s2 \<Rightarrow> Some (case b of Completes \<Rightarrow> Served (Live client) | Raises \<Rightarrow> Failed, s2)))
               = Some (r, s') \<and> queue_ok s'"
proof (cases "acquire now s")
  case (Pair res s1)
  show ?thesis
  proof (cases res)
    case (Inl msg)
    with Pair assms acquire_failed_queue_ok show ?thesis by auto
  next
    case (Inr a)
    with Pair acquire_live_breaker [of now s a s1] obtain client where a: "a = Live client"
      by (cases a) auto
    from Pair Inr a assms have room: "max_connections s1 \<le> 0 \<or> int (length (pool s1)) < max_connections s1"
      using acquire_live_room by blast
    let ?mid = "case b of Completes \<Rightarrow> on_success s1 | Raises \<Rightarrow> on_failure tx s1"
    from room have "max_connections ?mid \<le> 0 \<or> int (length (pool ?mid)) < max_connections ?mid"
      by (cases b) (simp_all add: outcome_keeps_room)
    from release_returns [OF this, of tx te client]
    obtain s2 where "release tx te client ?mid = Some s2" "queue_ok s2" by blast
    with Pair Inr a show ?thesis by (simp add: get_client_exit_def)
  qed
qed

lemma get_client_returns:
  assumes "queue_ok s"
  shows "\<exists>r s'. get_client call s = Some (r, s') \<and> queue_ok s'"
proof (cases "circuit_breaker_open s")
  case False
  with acquire_returns [OF assms, where now = "t_enter call" and b = "body call"
      and tx = "t_exit call" and te = "t_enter call"]
  show ?thesis by (simp add: get_client_def get_client_enter_def)
next
  case True
  show ?thesis
  proof (cases "circuit_breaker_opened_at s")
    case None
    with True assms show ?thesis by (simp add: get_client_def get_client_enter_def)
  next
    case (Some opened_at)
    show ?thesis
    proof (cases "t_enter call - opened_at < circuit_breaker_timeout s")
      case within: True
      with True Some assms show ?thesis by (simp add: get_client_def get_client_enter_def)
    next
      case elapsed: False
      let ?s0 = "s\<lparr> circuit_breaker_open := False, failed_operations_count := 0 \<rparr>"
      have "queue_ok ?s0" using assms by (simp add: queue_ok_def)
      from acquire_returns [OF this, where now = "t_enter call" and b = "body call"
          and tx = "t_exit call" and te = "t_enter call"]
      show ?thesis using True Some elapsed by (simp add: get_client_def get_client_enter_def)
    qed
  qed
qed

lemma run_calls_returns:
  "queue_ok s \<Longrightarrow> \<exists>rs s'. run_calls calls s = Some (rs, s') \<and> queue_ok s'"
proof (induction calls arbitrary: s)
  case Nil
  then show ?case by simp
next
  case (Cons call calls)
  from get_client_returns [OF Cons.prems, of call]
  obtain r s1 where st: "get_client call s = Some (r, s1)" and ok: "queue_ok s1" by blast
  from Cons.IH [OF ok] obtain rs s' where "run_calls calls s1 = Some (rs, s')" "queue_ok s'"
    by blast
  with st show ?case by simp
qed

text \<open>Open breaker.\<close>

lemma enter_within_cooldown:
  "circuit_breaker_open s \<Longrightarrow> circuit_breaker_opened_at s = Some opened_at \<Longrightarrow>
     now - opened_at < circuit_breaker_timeout s \<Longrightarrow> get_client_enter now s = (Inr Degraded, s)"
  by (simp add: get_client_enter_def)

lemma enter_after_cooldown:
  "circuit_breaker_open s \<Longrightarrow> circuit_breaker_opened_at s = Some opened_at \<Longrightarrow>
     circuit_breaker_timeout s \<le> now - opened_at \<Longrightarrow>
     get_client_enter now s
       = acquire now (s\<lparr> circuit_breaker_open := False, failed_operations_count := 0 \<rparr>)"
  by (simp add: get_client_enter_def)

lemma exit_keeps_open:
  assumes "circuit_breaker_open s" and "get_client_exit now start_time client b s = Some s'"
  shows "circuit_breaker_open s'"
proof -
  let ?mid = "case b of Completes \<Rightarrow> on_success s | Raises \<Rightarrow> on_failure now s"
  from assms(2) have "release now start_time client ?mid = Some s'"
    by (simp add: get_client_exit_def)
  from release_breaker [OF this] assms(1) show ?thesis
    by (cases b) (simp_all add: on_success_breaker on_failure_breaker)
qed

lemma calls_within_cooldown:
  assumes "circuit_breaker_open s" and "circuit_breaker_opened_at s = Some opened_at"
    and "list_all (\<lambda>call. t_enter call - opened_at < circuit_breaker_timeout s) calls"
  shows "run_calls calls s
           = Some (map (\<lambda>call. case body call of Completes \<Rightarrow> Served Degraded | Raises \<Rightarrow> Failed) calls, s)"
  using assms(3)
proof (induction calls)
  case Nil
  then show ?case by simp
next
  case (Cons call calls)
  then have "get_client_enter (t_enter call) s = (Inr Degraded, s)"
    using enter_within_cooldown [OF assms(1,2)] by simp
  with Cons show ?case by (simp add: get_client_def)
qed

lemmas pool_defs = get_client_def get_client_enter_def acquire_def get_client_exit_def
  release_def on_failure_def on_success_def should_recycle_client_def recycle_client_def
  queue_put_def init_pool_def Let_def

text \<open>
  C2.  With the threshold at 10 and the breaker closed with no failure counted: after
  \<open>n \<le> 10\<close> consecutive failed calls the counter is \<open>n\<close>, and the breaker is open exactly
  when \<open>n = 10\<close>; it then has an opening time, and any \<open>get_client\<close> entered before the
  cooldown has elapsed is handed the degraded client and leaves the pool untouched.  One
  successful call among the failures puts the counter back to 0: after fewer than 10
  failures, a success and then \<open>m \<le> 10\<close> failures the counter is \<open>m\<close> and the breaker is
  open exactly when \<open>m = 10\<close>.  Calls made one after the other always return.
\<close>

theorem breaker_opens_after_ten_failures:
  assumes closed: "\<not> circuit_breaker_open s"
    and zero: "failed_operations_count s = 0"
    and ten: "circuit_breaker_threshold s = 10"
  shows "(run_calls calls s = Some (rs, s') \<and> list_all (\<lambda>r. r = Failed) rs \<and> length calls \<le> 10 \<longrightarrow>
            failed_operations_count s' = int (length calls)
            \<and> (circuit_breaker_open s' \<longleftrightarrow> length calls = 10)
            \<and> (length calls = 10 \<longrightarrow>
                 (\<exists>opened_at. circuit_breaker_opened_at s' = Some opened_at
                    \<and> (\<forall>now. now - opened_at < circuit_breaker_timeout s' \<longrightarrow>
                          get_client_enter now s' = (Inr Degraded, s')))))
       \<and> (run_calls (calls1 @ [call] @ calls2) s = Some (rs1 @ [Served a] @ rs2, s2)
            \<and> length rs1 = length calls1
            \<and> list_all (\<lambda>r. r = Failed) rs1 \<and> list_all (\<lambda>r. r = Failed) rs2
            \<and> length calls1 < 10 \<and> length calls2 \<le> 10 \<longrightarrow>
            failed_operations_count s2 = int (length calls2)
            \<and> (circuit_breaker_open s2 \<longleftrightarrow> length calls2 = 10))
       \<and> (queue_ok s \<longrightarrow> (\<exists>rs s'. run_calls calls s = Some (rs, s')))"
proof (intro conjI impI)
  assume run: "run_calls calls s = Some (rs, s') \<and> list_all (\<lambda>r. r = Failed) rs \<and> length calls \<le> 10"
  with failures_accumulate [of calls s rs s'] closed zero ten
  have acc: "failed_operations_count s' = int (length calls)"
    "circuit_breaker_timeout s' = circuit_breaker_timeout s"
    "circuit_breaker_open s' = (failed_operations_count s' = 10)"
    "circuit_breaker_open s' \<longrightarrow> circuit_breaker_opened_at s' \<noteq> None"
    by simp_all
  show "failed_operations_count s' = int (length calls)" by (rule acc(1))
  show "circuit_breaker_open s' \<longleftrightarrow> length calls = 10" using acc(1,3) by simp
  assume "length calls = 10"
  with acc have op: "circuit_breaker_open s'" by simp
  with acc(4) obtain opened_at where at: "circuit_breaker_opened_at s' = Some opened_at" by auto
  show "\<exists>opened_at. circuit_breaker_opened_at s' = Some opened_at
          \<and> (\<forall>now. now - opened_at < circuit_breaker_timeout s' \<longrightarrow>
                get_client_enter now s' = (Inr Degraded, s'))"
    using at enter_within_cooldown [OF op at] by blast
next
  assume h: "run_calls (calls1 @ [call] @ calls2) s = Some (rs1 @ [Served a] @ rs2, s2)
            \<and> length rs1 = length calls1
            \<and> list_all (\<lambda>r. r = Failed) rs1 \<and> list_all (\<lambda>r. r = Failed) rs2
            \<and> length calls1 < 10 \<and> length calls2 \<le> 10"
  then obtain ra sa rb where
    r1: "run_calls calls1 s = Some (ra, sa)"
    and r2: "run_calls ([call] @ calls2) sa = Some (rb, s2)"
    and eq: "rs1 @ [Served a] @ rs2 = ra @ rb"
    unfolding run_calls_append [of calls1] by blast
  from run_calls_length [OF r1] h eq have ra: "ra = rs1" and rb: "rb = [Served a] @ rs2"
    by simp_all
  from r2 rb have "run_calls (call # calls2) sa = Some (Served a # rs2, s2)"
    by simp
  then obtain sb where
    st: "get_client call sa = Some (Served a, sb)" and r3: "run_calls calls2 sb = Some (rs2, s2)"
    unfolding run_calls_Cons_Some by blast
  from failures_accumulate [OF r1] ra h closed zero ten
  have sa: "failed_operations_count sa = int (length calls1)"
    "circuit_breaker_threshold sa = 10" "\<not> circuit_breaker_open sa"
    by simp_all
  from get_client_closed_step [OF sa(3) st] sa(2)
  have sb: "failed_operations_count sb = 0" "circuit_breaker_threshold sb = 10"
    "\<not> circuit_breaker_open sb"
    by simp_all
  from failures_accumulate [OF r3] h sb
  have "failed_operations_count s2 = int (length calls2)"
    "circuit_breaker_open s2 = (failed_operations_count s2 = 10)"
    by simp_all
  then show "failed_operations_count s2 = int (length calls2)"
    and "circuit_breaker_open s2 \<longleftrightarrow> length calls2 = 10"
    by simp_all
next
  assume "queue_ok s"
  from run_calls_returns [OF this, of calls] show "\<exists>rs s'. run_calls calls s = Some (rs, s')"
    by blast
qed

theorem breaker_opens_after_ten_failures_witness:
  "\<exists>rs s'.
     run_calls
       [\<lparr> t_enter = 0, t_exit = 6, body = Raises \<rparr>, \<lparr> t_enter = 10, t_exit = 16, body = Raises \<rparr>,
        \<lparr> t_enter = 20, t_exit = 26, body = Raises \<rparr>, \<lparr> t_enter = 30, t_exit = 36, body = Raises \<rparr>,
        \<lparr> t_enter = 40, t_exit = 46, body = Raises \<rparr>, \<lparr> t_enter = 50, t_exit = 56, body = Raises \<rparr>,
        \<lparr> t_enter = 60, t_exit = 66, body = Raises \<rparr>, \<lparr> t_enter = 70, t_exit = 76, body = Raises \<rparr>,
        \<lparr> t_enter = 80, t_exit = 86, body = Raises \<rparr>, \<lparr> t_enter = 90, t_exit = 96, body = Raises \<rparr>]
       (init_pool 0 2 5 3600) = Some (rs, s')
     \<and> list_all (\<lambda>r. r = Failed) rs
     \<and> failed_operations_count s' = 10
     \<and> circuit_breaker_open s'
     \<and> get_client_enter 100 s' = (Inr Degraded, s')"
proof -
  let ?calls = "[\<lparr> t_enter = 0, t_exit = 6, body = Raises \<rparr>, \<lparr> t_enter = 10, t_exit = 16, body = Raises \<rparr>,
        \<lparr> t_enter = 20, t_exit = 26, body = Raises \<rparr>, \<lparr> t_enter = 30, t_exit = 36, body = Raises \<rparr>,
        \<lparr> t_enter = 40, t_exit = 46, body = Raises \<rparr>, \<lparr> t_enter = 50, t_exit = 56, body = Raises \<rparr>,
        \<lparr> t_enter = 60, t_exit = 66, body = Raises \<rparr>, \<lparr> t_enter = 70, t_exit = 76, body = Raises \<rparr>,
        \<lparr> t_enter = 80, t_exit = 86, body = Raises \<rparr>, \<lparr> t_enter = 90, t_exit = 96, body = Raises \<rparr>]"
  let ?rs = "[Failed, Failed, Failed, Failed, Failed, Failed, Failed, Failed, Failed, Failed]"
  let ?s10 = "\<lparr>max_connections = 2, timeout = 5, recycle_interval = 3600, pool = [0],
      clients = [0], client_created_times = [(0, 5)], active_clients = {},
      metrics =
        \<lparr>total_connections = 1, active_connections = 0,
           failed_connections_metric = 0, successful_operations = 0,
           failed_operations = 10, average_response_time = 6,
           last_health_check = 0\<rparr>,
      failed_operations_count = 10, circuit_breaker_open = True,
      circuit_breaker_opened_at = Some 96, circuit_breaker_threshold = 10,
      circuit_breaker_timeout = 60, initialized = False, next_client = 1\<rparr>"
  have run: "run_calls ?calls (init_pool 0 2 5 3600) = Some (?rs, ?s10)"
    by (simp add: pool_defs)
  have hyps: "\<not> circuit_breaker_open (init_pool 0 2 5 3600)"
    "failed_operations_count (init_pool 0 2 5 3600) = 0"
    "circuit_breaker_threshold (init_pool 0 2 5 3600) = 10"
    by (simp_all add: init_pool_def)
  have fails: "list_all (\<lambda>r. r = Failed) ?rs" and len: "length ?calls \<le> 10" "length ?calls = 10"
    by simp_all
  from breaker_opens_after_ten_failures [OF hyps, of ?calls ?rs ?s10] run fails len
  have cnt: "failed_operations_count ?s10 = int (length ?calls)"
    and op: "circuit_breaker_open ?s10"
    and deg: "\<exists>opened_at. circuit_breaker_opened_at ?s10 = Some opened_at
                \<and> (\<forall>now. now - opened_at < circuit_breaker_timeout ?s10 \<longrightarrow>
                      get_client_enter now ?s10 = (Inr Degraded, ?s10))"
    by blast+
  from deg have "get_client_enter 100 ?s10 = (Inr Degraded, ?s10)" by simp
  with run fails cnt op show ?thesis by simp
qed

text \<open>
  C3.  While the breaker is open with opening time \<open>opened_at\<close>: a \<open>get_client\<close> entered
  less than the cooldown after \<open>opened_at\<close> is handed the degraded client and changes nothing
  (no client leaves the queue, none is created), and so does every sequence of such calls;
  leaving a call that had started earlier never closes the breaker.  A \<open>get_client\<close>
  entered once the cooldown has elapsed behaves as on a closed breaker with the failure
  counter at 0, and when it hands out a client that client is a live one, the breaker is
  closed and the counter is 0.
\<close>

theorem open_breaker_holds_for_cooldown:
  assumes op: "circuit_breaker_open s"
    and at: "circuit_breaker_opened_at s = Some opened_at"
  shows "(now - opened_at < circuit_breaker_timeout s \<longrightarrow>
            get_client_enter now s = (Inr Degraded, s))
       \<and> (list_all (\<lambda>call. t_enter call - opened_at < circuit_breaker_timeout s) calls \<longrightarrow>
            run_calls calls s
              = Some (map (\<lambda>call. case body call of Completes \<Rightarrow> Served Degraded
                                                  | Raises \<Rightarrow> Failed) calls, s))
       \<and> (get_client_exit now start_time client b s = Some s' \<longrightarrow> circuit_breaker_open s')
       \<and> (circuit_breaker_timeout s \<le> now - opened_at \<longrightarrow>
            get_client_enter now s
              = acquire now (s\<lparr> circuit_breaker_open := False, failed_operations_count := 0 \<rparr>))
       \<and> (circuit_breaker_timeout s \<le> now - opened_at \<and> get_client_enter now s = (Inr a, s1) \<longrightarrow>
            a \<noteq> Degraded \<and> \<not> circuit_breaker_open s1 \<and> failed_operations_count s1 = 0)"
proof (intro conjI impI)
  assume "now - opened_at < circuit_breaker_timeout s"
  then show "get_client_enter now s = (Inr Degraded, s)"
    by (rule enter_within_cooldown [OF op at])
next
  assume "list_all (\<lambda>call. t_enter call - opened_at < circuit_breaker_timeout s) calls"
  then show "run_calls calls s
              = Some (map (\<lambda>call. case body call of Completes \<Rightarrow> Served Degraded
                                                  | Raises \<Rightarrow> Failed) calls, s)"
    by (rule calls_within_cooldown [OF op at])
next
  assume "get_client_exit now start_time client b s = Some s'"
  then show "circuit_breaker_open s'" by (rule exit_keeps_open [OF op])
next
  assume "circuit_breaker_timeout s \<le> now - opened_at"
  then show "get_client_enter now s
              = acquire now (s\<lparr> circuit_breaker_open := False, failed_operations_count := 0 \<rparr>)"
    by (rule enter_after_cooldown [OF op at])
next
  assume h: "circuit_breaker_timeout s \<le> now - opened_at \<and> get_client_enter now s = (Inr a, s1)"
  then have elapsed: "circuit_breaker_timeout s \<le> now - opened_at"
    and res: "get_client_enter now s = (Inr a, s1)"
    by simp_all
  from enter_after_cooldown [OF op at elapsed] res
  have "acquire now (s\<lparr> circuit_breaker_open := False, failed_operations_count := 0 \<rparr>) = (Inr a, s1)"
    by simp
  from acquire_live_breaker [OF this]
  show "a \<noteq> Degraded" and "\<not> circuit_breaker_open s1" and "failed_operations_count s1 = 0"
    by simp_all
qed

theorem open_breaker_holds_for_cooldown_witness:
  "get_client_enter 155 \<lparr>max_connections = 2, timeout = 5, recycle_interval = 3600, pool = [0],
      clients = [0], client_created_times = [(0, 5)], active_clients = {},
      metrics =
        \<lparr>total_connections = 1, active_connections = 0,
           failed_connections_metric = 0, successful_operations = 0,
           failed_operations = 10, average_response_time = 6,
           last_health_check = 0\<rparr>,
      failed_operations_count = 10, circuit_breaker_open = True,
      circuit_breaker_opened_at = Some 96, circuit_breaker_threshold = 10,
      circuit_breaker_timeout = 60, initialized = False, next_client = 1\<rparr> = (Inr Degraded, \<lparr>max_connections = 2, timeout = 5, recycle_interval = 3600, pool = [0],
      clients = [0], client_created_times = [(0, 5)], active_clients = {},
      metrics =
        \<lparr>total_connections = 1, active_connections = 0,
           failed_connections_metric = 0, successful_operations = 0,
           failed_operations = 10, average_response_time = 6,
           last_health_check = 0\<rparr>,
      failed_operations_count = 10, circuit_breaker_open = True,
      circuit_breaker_opened_at = Some 96, circuit_breaker_threshold = 10,
      circuit_breaker_timeout = 60, initialized = False, next_client = 1\<rparr>)
   \<and> fst (get_client_enter 156 \<lparr>max_connections = 2, timeout = 5, recycle_interval = 3600, pool = [0],
      clients = [0], client_created_times = [(0, 5)], active_clients = {},
      metrics =
        \<lparr>total_connections = 1, active_connections = 0,
           failed_connections_metric = 0, successful_operations = 0,
           failed_operations = 10, average_response_time = 6,
           last_health_check = 0\<rparr>,
      failed_operations_count = 10, circuit_breaker_open = True,
      circuit_breaker_opened_at = Some 96, circuit_breaker_threshold = 10,
      circuit_breaker_timeout = 60, initialized = False, next_client = 1\<rparr>) = Inr (Live 0)
   \<and> \<not> circuit_breaker_open (snd (get_client_enter 156 \<lparr>max_connections = 2, timeout = 5, recycle_interval = 3600, pool = [0],
      clients = [0], client_created_times = [(0, 5)], active_clients = {},
      metrics =
        \<lparr>total_connections = 1, active_connections = 0,
           failed_connections_metric = 0, successful_operations = 0,
           failed_operations = 10, average_response_time = 6,
           last_health_check = 0\<rparr>,
      failed_operations_count = 10, circuit_breaker_open = True,
      circuit_breaker_opened_at = Some 96, circuit_breaker_threshold = 10,
      circuit_breaker_timeout = 60, initialized = False, next_client = 1\<rparr>))
   \<and> failed_operations_count (snd (get_client_enter 156 \<lparr>max_connections = 2, timeout = 5, recycle_interval = 3600, pool = [0],
      clients = [0], client_created_times = [(0, 5)], active_clients = {},
      metrics =
        \<lparr>total_connections = 1, active_connections = 0,
           failed_connections_metric = 0, successful_operations = 0,
           failed_operations = 10, average_response_time = 6,
           last_health_check = 0\<rparr>,
      failed_operations_count = 10, circuit_breaker_open = True,
      circuit_breaker_opened_at = Some 96, circuit_breaker_threshold = 10,
      circuit_breaker_timeout = 60, initialized = False, next_client = 1\<rparr>)) = 0"
proof -
  let ?s = "\<lparr>max_connections = 2, timeout = 5, recycle_interval = 3600, pool = [0],
      clients = [0], client_created_times = [(0, 5)], active_clients = {},
      metrics =
        \<lparr>total_connections = 1, active_connections = 0,
           failed_connections_metric = 0, successful_operations = 0,
           failed_operations = 10, average_response_time = 6,
           last_health_check = 0\<rparr>,
      failed_operations_count = 10, circuit_breaker_open = True,
      circuit_breaker_opened_at = Some 96, circuit_breaker_threshold = 10,
      circuit_breaker_timeout = 60, initialized = False, next_client = 1\<rparr>"
  have op: "circuit_breaker_open ?s" and at: "circuit_breaker_opened_at ?s = Some 96"
    by simp_all
  have within: "155 - (96::real) < circuit_breaker_timeout ?s"
    and elapsed: "circuit_breaker_timeout ?s \<le> 156 - (96::real)"
    by simp_all
  from open_breaker_holds_for_cooldown [OF op at, of 155] within
  have degraded: "get_client_enter 155 ?s = (Inr Degraded, ?s)"
    by blast
  from open_breaker_holds_for_cooldown [OF op at, of 156] elapsed
  have "get_client_enter 156 ?s
          = acquire 156 (?s\<lparr> circuit_breaker_open := False, failed_operations_count := 0 \<rparr>)"
    by blast
  then have probe: "fst (get_client_enter 156 ?s) = Inr (Live 0)"
    "\<not> circuit_breaker_open (snd (get_client_enter 156 ?s))"
    "failed_operations_count (snd (get_client_enter 156 ?s)) = 0"
    by (simp_all add: acquire_def)
  from degraded probe show ?thesis by blast
qed

section \<open>Pool exhaustion and its classification\<close>











section \<open>The sweep of the connection tracker\<close>

lemma cleanup_no_timeouts:
  "operation_timeouts s = [] \<Longrightarrow> cleanup_old_operations now s = s"
  by (simp add: cleanup_old_operations_def old_operations_def)

lemma apply_tracker_op_timeouts:
  "operation_timeouts s = [] \<Longrightarrow> operation_timeouts (apply_tracker_op op s) = []"
  by (cases op)
     (auto simp: record_failure_def record_success_def cleanup_no_timeouts Let_def
        split: option.splits)

lemma reachable_no_timeouts:
  "operation_timeouts s = [] \<Longrightarrow> operation_timeouts (fold apply_tracker_op ops s) = []"
  by (induction ops arbitrary: s) (simp_all add: apply_tracker_op_timeouts)

text \<open>
  C7 (what the code does).  No method of the tracker writes \<open>operation_timeouts\<close>, so after
  any sequence of calls on a fresh tracker \<open>cleanup_old_operations\<close> removes nothing: the
  retry record of an operation that failed at time 0 is still there after a sweep at
  time 1000.
\<close>

theorem cleanup_old_operations_removes_nothing:
  "cleanup_old_operations now (fold apply_tracker_op ops (init_tracker m d))
     = fold apply_tracker_op ops (init_tracker m d)
   \<and> map_of (retry_counts (cleanup_old_operations 1000
                (record_failure 0 (Some ''op-1'') (init_tracker 3 1)))) ''op-1'' = Some 1"
proof -
  have "operation_timeouts (init_tracker m d) = []" by (simp add: init_tracker_def)
  from cleanup_no_timeouts [OF reachable_no_timeouts [OF this]]
  have "cleanup_old_operations now (fold apply_tracker_op ops (init_tracker m d))
          = fold apply_tracker_op ops (init_tracker m d)" .
  moreover have "map_of (retry_counts (cleanup_old_operations 1000
                (record_failure 0 (Some ''op-1'') (init_tracker 3 1)))) ''op-1'' = Some 1"
    by (simp add: cleanup_old_operations_def old_operations_def record_failure_def
          init_tracker_def retry_count_of_def)
  ultimately show ?thesis by simp
qed

section \<open>Bulk invalidation of a tenant\<close>

text \<open>
  C5 (what the code does).  The pattern \<^verbatim>\<open>*:tenant:1*\<close> of \<open>invalidate_tenant_cache('1')\<close>
  also matches the keys of tenant \<open>12\<close>: with the templates of both tenants cached, the
  invalidation of tenant \<open>1\<close> deletes two keys, and the templates of tenant \<open>12\<close> are gone.
\<close>

theorem invalidate_tenant_cache_crosses_tenants:
  "get_templates True 11 ''12''
      (snd (set_templates True 1 ''12'' ''[b]''
         (snd (set_templates True 0 ''1'' ''[a]''
            \<lparr> redis_client = Some [], default_ttl = 300 \<rparr>))))
     = Some ''[b]''
   \<and> fst (invalidate_tenant_cache True 10 ''1''
        (snd (set_templates True 1 ''12'' ''[b]''
           (snd (set_templates True 0 ''1'' ''[a]''
              \<lparr> redis_client = Some [], default_ttl = 300 \<rparr>)))))
     = 2
   \<and> get_templates True 11 ''12''
        (snd (invalidate_tenant_cache True 10 ''1''
           (snd (set_templates True 1 ''12'' ''[b]''
              (snd (set_templates True 0 ''1'' ''[a]''
                 \<lparr> redis_client = Some [], default_ttl = 300 \<rparr>))))))
     = None"
  by (simp add: get_templates_def set_templates_def invalidate_tenant_cache_def cache_get_def
        cache_set_def delete_pattern_def live_def redis_keys_def make_key_def)


end
